theory Spec2Isabelle
  imports Main "HOL-Library.Multiset"
begin

section \<open>JavaScript values\<close>

text \<open>
  The program of \<^verbatim>\<open>src/index.ts\<close> is dynamically typed at run time: a resolver
  receives whatever the execution engine passes and returns arrays of object literals.
  Values are therefore one datatype. An object is the list of its own properties in
  insertion order (the first binding of a key is the one read); numbers are the integers
  the program uses.
\<close>

datatype jsval =
    Undefined
  | Null
  | Num int
  | Str string
  | Obj "(string \<times> jsval) list"
  | Arr "jsval list"

text \<open>Reading a property of \<^verbatim>\<open>undefined\<close> or \<^verbatim>\<open>null\<close> throws a TypeError.\<close>

datatype error = TypeError

text \<open>
  \<^verbatim>\<open>v.k\<close>: the own property \<open>k\<close> of an object, \<^verbatim>\<open>undefined\<close> when it has none, and
  a TypeError on \<^verbatim>\<open>undefined\<close> and \<^verbatim>\<open>null\<close>. The program reads the properties
  \<^verbatim>\<open>id\<close>, \<^verbatim>\<open>branch\<close> and \<^verbatim>\<open>author\<close> only, which no built-in prototype defines, so
  a string, a number or an array has none of them.
\<close>

fun get :: "jsval \<Rightarrow> string \<Rightarrow> error + jsval" where
  "get Undefined k = Inl TypeError"
| "get Null k = Inl TypeError"
| "get (Obj kvs) k = Inr (case map_of kvs k of Some v \<Rightarrow> v | None \<Rightarrow> Undefined)"
| "get (Num n) k = Inr Undefined"
| "get (Str s) k = Inr Undefined"
| "get (Arr xs) k = Inr Undefined"

text \<open>
  \<^verbatim>\<open>l === r\<close>. Primitives are equal when they are the same primitive. Objects and arrays
  are equal when they are the same reference, which a value does not carry: in both
  comparisons of the program the left operand is a property of a seeded entry, a string,
  and for a string on the left the function is exact.
\<close>

fun strict_eq :: "jsval \<Rightarrow> jsval \<Rightarrow> bool" where
  "strict_eq Undefined Undefined = True"
| "strict_eq Null Null = True"
| "strict_eq (Num a) (Num b) = (a = b)"
| "strict_eq (Str a) (Str b) = (a = b)"
| "strict_eq _ _ = False"

text \<open>
  \<^verbatim>\<open>Array.prototype.find\<close> and \<^verbatim>\<open>Array.prototype.filter\<close> with a callback that may
  throw: the first exception ends the scan. \<^verbatim>\<open>find\<close> returns \<^verbatim>\<open>undefined\<close> when no
  element satisfies the callback; \<^verbatim>\<open>filter\<close> returns a new array.
\<close>

fun find_js :: "(jsval \<Rightarrow> error + bool) \<Rightarrow> jsval list \<Rightarrow> error + jsval" where
  "find_js p [] = Inr Undefined"
| "find_js p (x # xs) =
     (case p x of
        Inl e \<Rightarrow> Inl e
      | Inr b \<Rightarrow> if b then Inr x else find_js p xs)"

fun filter_js :: "(jsval \<Rightarrow> error + bool) \<Rightarrow> jsval list \<Rightarrow> error + jsval list" where
  "filter_js p [] = Inr []"
| "filter_js p (x # xs) =
     (case p x of
        Inl e \<Rightarrow> Inl e
      | Inr b \<Rightarrow>
          (case filter_js p xs of
             Inl e \<Rightarrow> Inl e
           | Inr ys \<Rightarrow> Inr (if b then x # ys else ys)))"

text \<open>\<^verbatim>\<open>l.k === r.k'\<close>, the left operand evaluated first.\<close>

definition prop_eq :: "jsval \<Rightarrow> string \<Rightarrow> jsval \<Rightarrow> string \<Rightarrow> error + bool" where
  "prop_eq l k r k' =
     (case get l k of
        Inl e \<Rightarrow> Inl e
      | Inr a \<Rightarrow> (case get r k' of Inl e \<Rightarrow> Inl e | Inr b \<Rightarrow> Inr (strict_eq a b)))"


section \<open>The module state\<close>

text \<open>
  The four module-level collections (lines 129 to 176). \<^verbatim>\<open>books\<close> and \<^verbatim>\<open>authors\<close>
  are \<^verbatim>\<open>let\<close> bindings, \<^verbatim>\<open>libraries\<close> and \<^verbatim>\<open>booksNew\<close> are \<^verbatim>\<open>const\<close> bindings of
  mutable arrays; all four are part of the state a resolver could change.
\<close>

record state =
  books :: "jsval list"
  authors :: "jsval list"
  libraries :: "jsval list"
  booksNew :: "jsval list"

definition init :: state where
  "init =
     \<lparr> books =
         [ Obj [(''title'', Str ''The Awakening''), (''author'', Obj [(''name'', Str ''Kate Chopin'')])],
           Obj [(''title'', Str ''City of Glass''), (''author'', Obj [(''name'', Str ''Paul Auster'')])] ],
       authors =
         [ Obj [(''id'', Str ''1''), (''name'', Str ''Kate Chopin''),
                (''books'', Arr [Obj [(''title'', Str ''The Awakening'')]])],
           Obj [(''id'', Str ''2''), (''name'', Str ''Paul Auster''),
                (''books'', Arr [Obj [(''title'', Str ''City of Glass'')]])] ],
       libraries =
         [ Obj [(''branch'', Str ''downtown'')],
           Obj [(''branch'', Str ''riverside'')] ],
       booksNew =
         [ Obj [(''title'', Str ''The Awakening''), (''author'', Str ''Kate Chopin''),
                (''branch'', Str ''riverside'')],
           Obj [(''title'', Str ''City of Glass''), (''author'', Str ''Paul Auster''),
                (''branch'', Str ''downtown'')] ] \<rparr>"


section \<open>The resolvers\<close>

text \<open>
  A resolver is called with four positional parameters, as the parameter list of
  \<^verbatim>\<open>Query.author\<close> (line 69) names them: the parent value, the object of the field's
  arguments, the context value and the info object. A resolver that declares fewer
  parameters ignores the rest. It returns a value or throws, and it runs on the module
  state, which it returns.
\<close>

type_synonym resolver =
  "state \<Rightarrow> jsval \<Rightarrow> jsval \<Rightarrow> jsval \<Rightarrow> jsval \<Rightarrow> (error + jsval) \<times> state"

definition Query_books :: resolver where
  "Query_books s parent args contextValue info = (Inr (Arr (books s)), s)"

definition Query_authors :: resolver where
  "Query_authors s parent args contextValue info = (Inr (Arr (authors s)), s)"

definition Query_author :: resolver where
  "Query_author s parent args contextValue info =
     (find_js (\<lambda>item. prop_eq item ''id'' args ''id'') (authors s), s)"

definition Query_numberSix :: resolver where
  "Query_numberSix s parent args contextValue info = (Inr (Num 6), s)"

definition Query_numberSeven :: resolver where
  "Query_numberSeven s parent args contextValue info = (Inr (Num 7), s)"

definition Query_libraries :: resolver where
  "Query_libraries s parent args contextValue info = (Inr (Arr (libraries s)), s)"

definition Library_booksNew :: resolver where
  "Library_booksNew s parent args contextValue info =
     (case filter_js (\<lambda>book. prop_eq book ''branch'' parent ''branch'') (booksNew s) of
        Inl e \<Rightarrow> Inl e
      | Inr ys \<Rightarrow> Inr (Arr ys),
      s)"

definition BookNew_author :: resolver where
  "BookNew_author s parent args contextValue info =
     (case get parent ''author'' of
        Inl e \<Rightarrow> Inl e
      | Inr a \<Rightarrow> Inr (Obj [(''name'', a)]),
      s)"

text \<open>
  \<^verbatim>\<open>addBook: (title: String, author: String) => { return [...books, { title, author }]; }\<close>
  (lines 104 to 107). The two declared parameters are the first two positional
  parameters of the call.
\<close>

definition Mutation_addBook :: resolver where
  "Mutation_addBook s title author contextValue info =
     (Inr (Arr (books s @ [Obj [(''title'', title), (''author'', author)]])), s)"

text \<open>The resolver table (lines 65 to 110): type name, field name, function.\<close>

definition resolvers :: "(string \<times> (string \<times> resolver) list) list" where
  "resolvers =
     [ (''Query'',
          [ (''books'', Query_books),
            (''authors'', Query_authors),
            (''author'', Query_author),
            (''numberSix'', Query_numberSix),
            (''numberSeven'', Query_numberSeven),
            (''libraries'', Query_libraries) ]),
       (''Library'', [ (''booksNew'', Library_booksNew) ]),
       (''BookNew'', [ (''author'', BookNew_author) ]),
       (''Mutation'', [ (''addBook'', Mutation_addBook) ]) ]"


section \<open>Calls of the table\<close>

text \<open>
  A field without an entry in the table takes the parent's property of the same name
  (the comment of lines 100 to 102 relies on it for \<^verbatim>\<open>Author.name\<close>); a parent that is
  not an object has no such property.
\<close>

fun property_of :: "string \<Rightarrow> jsval \<Rightarrow> jsval" where
  "property_of k (Obj kvs) = (case map_of kvs k of Some v \<Rightarrow> v | None \<Rightarrow> Undefined)"
| "property_of k _ = Undefined"

text \<open>
  The execution engine, which is not part of the repository, reports a resolver result of
  \<^verbatim>\<open>undefined\<close> or \<^verbatim>\<open>null\<close> for a nullable field as null, without an error.
\<close>

fun nullable :: "jsval \<Rightarrow> jsval" where
  "nullable Undefined = Null"
| "nullable v = v"

text \<open>One resolution of a field: the call the execution engine makes.\<close>

record request =
  q_type :: string
  q_field :: string
  q_parent :: jsval
  q_args :: jsval
  q_context :: jsval
  q_info :: jsval

definition lookup :: "string \<Rightarrow> string \<Rightarrow> resolver option" where
  "lookup t f =
     (case map_of resolvers t of
        None \<Rightarrow> None
      | Some fs \<Rightarrow> map_of fs f)"

definition exec :: "state \<Rightarrow> request \<Rightarrow> (error + jsval) \<times> state" where
  "exec s q =
     (case lookup (q_type q) (q_field q) of
        Some r \<Rightarrow> r s (q_parent q) (q_args q) (q_context q) (q_info q)
      | None \<Rightarrow> (Inr (property_of (q_field q) (q_parent q)), s))"

text \<open>The state after a sequence of field resolutions, whatever they returned.\<close>

fun run :: "state \<Rightarrow> request list \<Rightarrow> state" where
  "run s [] = s"
| "run s (q # qs) = run (snd (exec s q)) qs"

text \<open>
  The response to the selection \<^verbatim>\<open>booksNew { title author { name } }\<close> on a library:
  \<^verbatim>\<open>Library.booksNew\<close> on the library, then for each entry \<^verbatim>\<open>title\<close> read off the
  entry, \<^verbatim>\<open>BookNew.author\<close> on the entry, and \<^verbatim>\<open>name\<close> read off its result.
  \<^verbatim>\<open>Library.booksNew\<close> returns an array or throws; the case of another value is there
  for totality only.
\<close>

definition select_BookNew :: "state \<Rightarrow> jsval \<Rightarrow> error + jsval" where
  "select_BookNew s book =
     (case fst (BookNew_author s book Undefined Undefined Undefined) of
        Inl e \<Rightarrow> Inl e
      | Inr a \<Rightarrow>
          Inr (Obj [(''title'', property_of ''title'' book),
                    (''author'', Obj [(''name'', property_of ''name'' a)])]))"

fun select_all :: "state \<Rightarrow> jsval list \<Rightarrow> error + jsval list" where
  "select_all s [] = Inr []"
| "select_all s (b # bs) =
     (case select_BookNew s b of
        Inl e \<Rightarrow> Inl e
      | Inr v \<Rightarrow> (case select_all s bs of Inl e \<Rightarrow> Inl e | Inr vs \<Rightarrow> Inr (v # vs)))"

definition select_booksNew :: "state \<Rightarrow> jsval \<Rightarrow> error + jsval" where
  "select_booksNew s library =
     (case fst (Library_booksNew s library Undefined Undefined Undefined) of
        Inr (Arr bs) \<Rightarrow> (case select_all s bs of Inl e \<Rightarrow> Inl e | Inr vs \<Rightarrow> Inr (Arr vs))
      | Inr v \<Rightarrow> Inr v
      | Inl e \<Rightarrow> Inl e)"


section \<open>No resolver changes the state\<close>

lemma table_entries:
  "(t, fs) \<in> set resolvers \<Longrightarrow> (f, r) \<in> set fs \<Longrightarrow>
     r \<in> {Query_books, Query_authors, Query_author, Query_numberSix, Query_numberSeven,
          Query_libraries, Library_booksNew, BookNew_author, Mutation_addBook}"
  by (auto simp: resolvers_def)

lemma entry_frame:
  assumes "r \<in> {Query_books, Query_authors, Query_author, Query_numberSix, Query_numberSeven,
          Query_libraries, Library_booksNew, BookNew_author, Mutation_addBook}"
  shows "snd (r s p a c i) = s"
  using assms
  by (auto simp: Query_books_def Query_authors_def Query_author_def Query_numberSix_def
      Query_numberSeven_def Query_libraries_def Library_booksNew_def BookNew_author_def
      Mutation_addBook_def)

lemma lookup_in_table:
  assumes "lookup t f = Some r"
  shows "\<exists>fs. (t, fs) \<in> set resolvers \<and> (f, r) \<in> set fs"
proof -
  from assms obtain fs where a: "map_of resolvers t = Some fs" and b: "map_of fs f = Some r"
    by (auto simp: lookup_def split: option.splits)
  from a have "(t, fs) \<in> set resolvers" by (rule map_of_SomeD)
  moreover from b have "(f, r) \<in> set fs" by (rule map_of_SomeD)
  ultimately show ?thesis by blast
qed

lemma exec_frame: "snd (exec s q) = s"
proof (cases "lookup (q_type q) (q_field q)")
  case None
  then show ?thesis by (simp add: exec_def)
next
  case (Some r)
  then obtain fs where "(q_type q, fs) \<in> set resolvers" and "(q_field q, r) \<in> set fs"
    using lookup_in_table by blast
  then have "snd (r s (q_parent q) (q_args q) (q_context q) (q_info q)) = s"
    using table_entries entry_frame by blast
  with Some show ?thesis by (simp add: exec_def)
qed

lemma run_frame: "run s qs = s"
  by (induction qs arbitrary: s) (simp_all add: exec_frame)


section \<open>Scans without exceptions\<close>

lemma strict_eq_Str: "strict_eq (Str x) v = (Str x = v)"
  by (cases v) simp_all

lemma find_js_pure:
  assumes "\<forall>x\<in>set xs. p x = Inr (q x)"
  shows "find_js p xs = Inr (case List.find q xs of Some x \<Rightarrow> x | None \<Rightarrow> Undefined)"
  using assms by (induction xs) simp_all

lemma filter_js_pure:
  assumes "\<forall>x\<in>set xs. p x = Inr (q x)"
  shows "filter_js p xs = Inr (filter q xs)"
  using assms by (induction xs) simp_all

lemma authors_id_eq:
  assumes "get args ''id'' = Inr v" and "item \<in> set (authors init)"
  shows "prop_eq item ''id'' args ''id'' = Inr (get item ''id'' = Inr v)"
  using assms by (auto simp: init_def prop_eq_def strict_eq_Str)

lemma booksNew_branch_eq:
  assumes "book \<in> set (booksNew init)"
  shows "prop_eq book ''branch'' (Obj kvs) ''branch'' =
           Inr (get book ''branch'' = get (Obj kvs) ''branch'')"
  using assms by (auto simp: init_def prop_eq_def strict_eq_Str)


section \<open>Mutation.addBook\<close>

text \<open>
  Claim C1. For every title and author argument, \<^verbatim>\<open>Mutation.addBook\<close> returns the two
  seeded books followed by one entry whose title is the title argument and whose author
  is the author argument.

  The code does not do this. The arguments of a field reach a resolver as one object, its
  second parameter (\<^verbatim>\<open>Query.author\<close> reads \<^verbatim>\<open>args.id\<close> from it), and the first
  parameter is the parent value. \<^verbatim>\<open>addBook\<close> declares its parameters as
  \<^verbatim>\<open>(title, author)\<close>, so \<^verbatim>\<open>title\<close> is bound to the parent value and \<^verbatim>\<open>author\<close> to
  the whole argument object. The theorem evaluates the call for any parent value and
  argument strings, and at \<^verbatim>\<open>addBook(title: "New Title", author: "New Author")\<close> on the
  seeded state with the parent \<^verbatim>\<open>undefined\<close>: the appended entry is
  \<^verbatim>\<open>{title: undefined, author: {title: "New Title", author: "New Author"}}\<close>, not
  \<^verbatim>\<open>{title: "New Title", author: "New Author"}\<close>.
\<close>

theorem addBook_graphql_arguments:
  "fst (exec s \<lparr> q_type = ''Mutation'', q_field = ''addBook'', q_parent = root,
          q_args = Obj [(''title'', Str t), (''author'', Str a)],
          q_context = c, q_info = i \<rparr>) =
     Inr (Arr (books s @
       [Obj [(''title'', root),
             (''author'', Obj [(''title'', Str t), (''author'', Str a)])]]))
   \<and> fst (exec init \<lparr> q_type = ''Mutation'', q_field = ''addBook'', q_parent = Undefined,
          q_args = Obj [(''title'', Str ''New Title''), (''author'', Str ''New Author'')],
          q_context = Obj [], q_info = Obj [] \<rparr>) =
     Inr (Arr
       [ Obj [(''title'', Str ''The Awakening''), (''author'', Obj [(''name'', Str ''Kate Chopin'')])],
         Obj [(''title'', Str ''City of Glass''), (''author'', Obj [(''name'', Str ''Paul Auster'')])],
         Obj [(''title'', Undefined),
              (''author'', Obj [(''title'', Str ''New Title''), (''author'', Str ''New Author'')])] ])
   \<and> fst (exec init \<lparr> q_type = ''Mutation'', q_field = ''addBook'', q_parent = Undefined,
          q_args = Obj [(''title'', Str ''New Title''), (''author'', Str ''New Author'')],
          q_context = Obj [], q_info = Obj [] \<rparr>) \<noteq>
     Inr (Arr
       [ Obj [(''title'', Str ''The Awakening''), (''author'', Obj [(''name'', Str ''Kate Chopin'')])],
         Obj [(''title'', Str ''City of Glass''), (''author'', Obj [(''name'', Str ''Paul Auster'')])],
         Obj [(''title'', Str ''New Title''), (''author'', Str ''New Author'')] ])"
  by (simp add: exec_def lookup_def resolvers_def Mutation_addBook_def init_def)

text \<open>
  Claim C2. An invocation of \<^verbatim>\<open>Mutation.addBook\<close> leaves the module-level \<^verbatim>\<open>books\<close>
  collection as it was: \<^verbatim>\<open>Query.books\<close> returns afterwards what it returned before, on
  the seeded state the two seeded entries, and the appended entry shows in the mutation's
  own return value only.
\<close>

theorem addBook_not_persisted:
  "books (snd (Mutation_addBook s title author c i)) = books s
   \<and> fst (Query_books (snd (Mutation_addBook s title author c i)) p a c' i') =
       fst (Query_books s p a c' i')
   \<and> fst (Query_books (snd (Mutation_addBook init title author c i)) p a c' i') =
       Inr (Arr [ Obj [(''title'', Str ''The Awakening''),
                       (''author'', Obj [(''name'', Str ''Kate Chopin'')])],
                  Obj [(''title'', Str ''City of Glass''),
                       (''author'', Obj [(''name'', Str ''Paul Auster'')])] ])
   \<and> fst (Mutation_addBook s title author c i) \<noteq> fst (Query_books s p a c' i')"
  by (simp add: Mutation_addBook_def Query_books_def init_def)


section \<open>Query.author\<close>

text \<open>
  Claim C3. For every id argument \<open>v\<close> (the \<^verbatim>\<open>id\<close> property of the argument object),
  \<^verbatim>\<open>Query.author\<close> on the seeded authors returns the first entry whose id is \<open>v\<close>; when
  the ids of the seeded entries are pairwise different, so when some entry has that id,
  exactly one entry has it, and that entry is the one returned; when none has,
  the resolver raises no error and returns \<^verbatim>\<open>undefined\<close>, the value of JavaScript's
  \<^verbatim>\<open>find\<close> for "not found", which the field of type \<^verbatim>\<open>Author\<close> shows as null.
\<close>

theorem Query_author_lookup:
  assumes "get args ''id'' = Inr v"
  shows "fst (Query_author init p args c i) =
           Inr (case List.find (\<lambda>a. get a ''id'' = Inr v) (authors init) of
                  Some a \<Rightarrow> a | None \<Rightarrow> Undefined)
       \<and> distinct (map (\<lambda>a. get a ''id'') (authors init))
       \<and> ((\<exists>a\<in>set (authors init). get a ''id'' = Inr v) \<longrightarrow>
            (\<exists>!a. a \<in> set (authors init) \<and> get a ''id'' = Inr v)
            \<and> (\<exists>a\<in>set (authors init).
                  get a ''id'' = Inr v \<and> fst (Query_author init p args c i) = Inr a))
       \<and> ((\<forall>a\<in>set (authors init). get a ''id'' \<noteq> Inr v) \<longrightarrow>
            fst (Query_author init p args c i) = Inr Undefined
            \<and> map_sum id nullable (fst (Query_author init p args c i)) = Inr Null)"
proof -
  define k where "k = Obj [(''id'', Str ''1''), (''name'', Str ''Kate Chopin''),
                (''books'', Arr [Obj [(''title'', Str ''The Awakening'')]])]"
  define q where "q = Obj [(''id'', Str ''2''), (''name'', Str ''Paul Auster''),
                (''books'', Arr [Obj [(''title'', Str ''City of Glass'')]])]"
  have au: "authors init = [k, q]" by (simp add: init_def k_def q_def)
  have gk: "get k ''id'' = Inr (Str ''1'')" by (simp add: k_def)
  have gq: "get q ''id'' = Inr (Str ''2'')" by (simp add: q_def)
  have ne: "Str ''1'' \<noteq> Str ''2''" by simp
  have r: "fst (Query_author init p args c i) =
           Inr (case List.find (\<lambda>a. get a ''id'' = Inr v) (authors init) of
                  Some a \<Rightarrow> a | None \<Rightarrow> Undefined)"
    unfolding Query_author_def fst_conv
    by (rule find_js_pure) (simp add: authors_id_eq [OF assms])
  have ids: "distinct (map (\<lambda>a. get a ''id'') (authors init))"
    unfolding au using ne by (simp add: gk gq)
  have uniq: "\<exists>!a. a \<in> set (authors init) \<and> get a ''id'' = Inr v"
    if "\<exists>a\<in>set (authors init). get a ''id'' = Inr v"
    using that ne unfolding au by (auto simp: gk gq)
  have hit: "\<exists>a\<in>set (authors init).
      get a ''id'' = Inr v \<and>
      Inr (case List.find (\<lambda>a. get a ''id'' = Inr v) (authors init) of
             Some a \<Rightarrow> a | None \<Rightarrow> Undefined) = (Inr a :: error + jsval)"
    if "\<exists>a\<in>set (authors init). get a ''id'' = Inr v"
    using that ne unfolding au by (auto simp: gk gq)
  have miss: "(Inr (case List.find (\<lambda>a. get a ''id'' = Inr v) (authors init) of
             Some a \<Rightarrow> a | None \<Rightarrow> Undefined) :: error + jsval) = Inr Undefined"
    if "\<forall>a\<in>set (authors init). get a ''id'' \<noteq> Inr v"
    using that unfolding au by (auto simp: gk gq)
  show ?thesis
    unfolding r using ids uniq hit miss by simp
qed

theorem Query_author_lookup_witness:
  "fst (Query_author init Undefined (Obj [(''id'', Str ''2'')]) (Obj []) (Obj [])) =
     Inr (Obj [(''id'', Str ''2''), (''name'', Str ''Paul Auster''),
               (''books'', Arr [Obj [(''title'', Str ''City of Glass'')]])])
   \<and> (\<exists>!a. a \<in> set (authors init) \<and> get a ''id'' = Inr (Str ''2''))
   \<and> fst (Query_author init Undefined (Obj [(''id'', Str ''3'')]) (Obj []) (Obj [])) = Inr Undefined
   \<and> map_sum id nullable
         (fst (Query_author init Undefined (Obj [(''id'', Str ''3'')]) (Obj []) (Obj []))) = Inr Null"
proof -
  have found: "get (Obj [(''id'', Str ''2'')]) ''id'' = Inr (Str ''2'')" by simp
  have absent: "get (Obj [(''id'', Str ''3'')]) ''id'' = Inr (Str ''3'')" by simp
  have "fst (Query_author init Undefined (Obj [(''id'', Str ''2'')]) (Obj []) (Obj [])) =
          Inr (case List.find (\<lambda>a. get a ''id'' = Inr (Str ''2'')) (authors init) of
                 Some a \<Rightarrow> a | None \<Rightarrow> Undefined)"
    using Query_author_lookup [OF found] by blast
  then have hit: "fst (Query_author init Undefined (Obj [(''id'', Str ''2'')]) (Obj []) (Obj [])) =
     Inr (Obj [(''id'', Str ''2''), (''name'', Str ''Paul Auster''),
               (''books'', Arr [Obj [(''title'', Str ''City of Glass'')]])])"
    by (simp add: init_def)
  have "\<exists>a\<in>set (authors init). get a ''id'' = Inr (Str ''2'')"
    by (simp add: init_def)
  then have uniq: "\<exists>!a. a \<in> set (authors init) \<and> get a ''id'' = Inr (Str ''2'')"
    using Query_author_lookup [OF found] by blast
  have "\<forall>a\<in>set (authors init). get a ''id'' \<noteq> Inr (Str ''3'')"
    by (simp add: init_def)
  then have "fst (Query_author init Undefined (Obj [(''id'', Str ''3'')]) (Obj []) (Obj [])) =
          Inr Undefined
     \<and> map_sum id nullable
         (fst (Query_author init Undefined (Obj [(''id'', Str ''3'')]) (Obj []) (Obj []))) = Inr Null"
    using Query_author_lookup [OF absent] by blast
  with hit uniq show ?thesis by blast
qed


section \<open>Library.booksNew and BookNew.author\<close>

text \<open>
  Claim C4. For every parent object, \<^verbatim>\<open>Library.booksNew\<close> returns the entries of the
  \<^verbatim>\<open>booksNew\<close> collection whose branch is the parent's branch, in the order of the
  collection; when no entry matches, the result is the empty array, not an absent value.
\<close>

theorem Library_booksNew_filter:
  "fst (Library_booksNew init (Obj kvs) a c i) =
     Inr (Arr (filter (\<lambda>b. get b ''branch'' = get (Obj kvs) ''branch'') (booksNew init)))
   \<and> ((\<forall>b\<in>set (booksNew init). get b ''branch'' \<noteq> get (Obj kvs) ''branch'') \<longrightarrow>
        fst (Library_booksNew init (Obj kvs) a c i) = Inr (Arr []))"
proof -
  have "filter_js (\<lambda>book. prop_eq book ''branch'' (Obj kvs) ''branch'') (booksNew init) =
        Inr (filter (\<lambda>b. get b ''branch'' = get (Obj kvs) ''branch'') (booksNew init))"
    by (rule filter_js_pure) (simp add: booksNew_branch_eq)
  then have r: "fst (Library_booksNew init (Obj kvs) a c i) =
     Inr (Arr (filter (\<lambda>b. get b ''branch'' = get (Obj kvs) ''branch'') (booksNew init)))"
    by (simp add: Library_booksNew_def)
  show ?thesis unfolding r by (auto simp: filter_empty_conv)
qed

theorem Library_booksNew_filter_witness:
  "fst (Library_booksNew init (Obj [(''branch'', Str ''downtown'')]) (Obj []) (Obj []) (Obj [])) =
     Inr (Arr [Obj [(''title'', Str ''City of Glass''), (''author'', Str ''Paul Auster''),
                    (''branch'', Str ''downtown'')]])
   \<and> fst (Library_booksNew init (Obj [(''branch'', Str ''uptown'')]) (Obj []) (Obj []) (Obj [])) =
     Inr (Arr [])"
proof -
  have none: "\<forall>b\<in>set (booksNew init).
      get b ''branch'' \<noteq> get (Obj [(''branch'', Str ''uptown'')]) ''branch''"
    by (simp add: init_def)
  have "fst (Library_booksNew init (Obj [(''branch'', Str ''uptown'')]) (Obj []) (Obj []) (Obj [])) =
     Inr (Arr [])"
    using Library_booksNew_filter [of "[(''branch'', Str ''uptown'')]"] none by blast
  moreover have
    "fst (Library_booksNew init (Obj [(''branch'', Str ''downtown'')]) (Obj []) (Obj []) (Obj [])) =
     Inr (Arr (filter (\<lambda>b. get b ''branch'' = get (Obj [(''branch'', Str ''downtown'')]) ''branch'')
       (booksNew init)))"
    using Library_booksNew_filter [of "[(''branch'', Str ''downtown'')]"] by blast
  ultimately show ?thesis by (simp add: init_def)
qed

text \<open>
  Claim C5. On the seeded data, \<^verbatim>\<open>booksNew\<close> with each entry's author resolved gives,
  for the two seeded libraries in their order, \<^verbatim>\<open>[{title: "City of Glass", author:
  {name: "Paul Auster"}}]\<close> for "downtown" and \<^verbatim>\<open>[{title: "The Awakening", author:
  {name: "Kate Chopin"}}]\<close> for "riverside"; \<^verbatim>\<open>BookNew.author\<close> makes \<^verbatim>\<open>{name:
  parent.author}\<close> of the entry's author.
\<close>

theorem booksNew_with_authors:
  "map (select_booksNew init) (libraries init) =
     [ Inr (Arr [Obj [(''title'', Str ''City of Glass''),
                      (''author'', Obj [(''name'', Str ''Paul Auster'')])]]),
       Inr (Arr [Obj [(''title'', Str ''The Awakening''),
                      (''author'', Obj [(''name'', Str ''Kate Chopin'')])]]) ]
   \<and> libraries init = [Obj [(''branch'', Str ''downtown'')], Obj [(''branch'', Str ''riverside'')]]
   \<and> fst (BookNew_author s (Obj [(''author'', n)]) a c i) = Inr (Obj [(''name'', n)])"
  by (simp add: init_def select_booksNew_def Library_booksNew_def prop_eq_def
      select_BookNew_def BookNew_author_def)

text \<open>
  Claim C10. Every entry of the seeded \<^verbatim>\<open>booksNew\<close> collection has the branch of exactly
  one seeded library, and the results of \<^verbatim>\<open>Library.booksNew\<close> for the two seeded
  libraries partition the collection: together they hold its entries, each once, and
  every entry is under exactly one library.
\<close>

theorem booksNew_partition:
  "(\<forall>b\<in>set (booksNew init).
      \<exists>!l. l \<in> set (libraries init) \<and> get b ''branch'' = get l ''branch'')
   \<and> (\<exists>xs ys.
        map (\<lambda>l. fst (Library_booksNew init l a c i)) (libraries init) =
          [Inr (Arr xs), Inr (Arr ys)]
        \<and> mset (xs @ ys) = mset (booksNew init)
        \<and> distinct (xs @ ys)
        \<and> (\<forall>b\<in>set (booksNew init). (b \<in> set xs) \<noteq> (b \<in> set ys)))"
proof -
  define b1 where "b1 = Obj [(''title'', Str ''The Awakening''), (''author'', Str ''Kate Chopin''),
                (''branch'', Str ''riverside'')]"
  define b2 where "b2 = Obj [(''title'', Str ''City of Glass''), (''author'', Str ''Paul Auster''),
                (''branch'', Str ''downtown'')]"
  define l1 where "l1 = Obj [(''branch'', Str ''downtown'')]"
  define l2 where "l2 = Obj [(''branch'', Str ''riverside'')]"
  have bn: "booksNew init = [b1, b2]" by (simp add: init_def b1_def b2_def)
  have ls: "libraries init = [l1, l2]" by (simp add: init_def l1_def l2_def)
  have g: "get b1 ''branch'' = Inr (Str ''riverside'')" "get b2 ''branch'' = Inr (Str ''downtown'')"
    "get l1 ''branch'' = Inr (Str ''downtown'')" "get l2 ''branch'' = Inr (Str ''riverside'')"
    by (simp_all add: b1_def b2_def l1_def l2_def)
  have ne: "l1 \<noteq> l2" "b1 \<noteq> b2"
    by (simp_all add: b1_def b2_def l1_def l2_def)
  have u1: "\<exists>!l. l \<in> set [l1, l2] \<and> get b1 ''branch'' = get l ''branch''"
  proof (rule ex1I [of _ l2])
    show "l2 \<in> set [l1, l2] \<and> get b1 ''branch'' = get l2 ''branch''" by (simp add: g)
  next
    fix l assume "l \<in> set [l1, l2] \<and> get b1 ''branch'' = get l ''branch''"
    then show "l = l2" by (auto simp: g)
  qed
  have u2: "\<exists>!l. l \<in> set [l1, l2] \<and> get b2 ''branch'' = get l ''branch''"
  proof (rule ex1I [of _ l1])
    show "l1 \<in> set [l1, l2] \<and> get b2 ''branch'' = get l1 ''branch''" by (simp add: g)
  next
    fix l assume "l \<in> set [l1, l2] \<and> get b2 ''branch'' = get l ''branch''"
    then show "l = l1" by (auto simp: g)
  qed
  have one: "\<forall>b\<in>set (booksNew init).
      \<exists>!l. l \<in> set (libraries init) \<and> get b ''branch'' = get l ''branch''"
    unfolding bn ls using u1 u2 by simp
  have f1: "filter_js (\<lambda>book. prop_eq book ''branch'' l1 ''branch'') [b1, b2] = Inr [b2]"
    by (simp add: prop_eq_def g)
  have f2: "filter_js (\<lambda>book. prop_eq book ''branch'' l2 ''branch'') [b1, b2] = Inr [b1]"
    by (simp add: prop_eq_def g)
  have res: "map (\<lambda>l. fst (Library_booksNew init l a c i)) (libraries init) =
      [Inr (Arr [b2]), Inr (Arr [b1])]"
    unfolding ls Library_booksNew_def bn by (simp add: f1 f2 del: filter_js.simps)
  have m: "mset ([b2] @ [b1]) = mset (booksNew init)"
    unfolding bn by simp
  have d: "distinct ([b2] @ [b1])"
    using ne by simp
  have x: "\<forall>b\<in>set (booksNew init). (b \<in> set [b2]) \<noteq> (b \<in> set [b1])"
    unfolding bn using ne by simp
  have "\<exists>xs ys.
        map (\<lambda>l. fst (Library_booksNew init l a c i)) (libraries init) =
          [Inr (Arr xs), Inr (Arr ys)]
        \<and> mset (xs @ ys) = mset (booksNew init)
        \<and> distinct (xs @ ys)
        \<and> (\<forall>b\<in>set (booksNew init). (b \<in> set xs) \<noteq> (b \<in> set ys))"
    using res m d x by (intro exI [of _ "[b2]"] exI [of _ "[b1]"] conjI)
  with one show ?thesis by (rule conjI)
qed

theorem booksNew_partition_witness:
  "\<exists>!l. l \<in> set (libraries init) \<and>
      get (Obj [(''title'', Str ''City of Glass''), (''author'', Str ''Paul Auster''),
                (''branch'', Str ''downtown'')]) ''branch'' = get l ''branch''"
proof -
  have mem: "Obj [(''title'', Str ''City of Glass''), (''author'', Str ''Paul Auster''),
                (''branch'', Str ''downtown'')] \<in> set (booksNew init)"
    by (simp add: init_def)
  show ?thesis
    using booksNew_partition [THEN conjunct1, rule_format, OF mem] .
qed


section \<open>The constant queries\<close>

text \<open>
  Claim C6. \<^verbatim>\<open>Query.books\<close> returns the two seeded book entries, in seed order, each
  with its nested author object, after any sequence of field resolutions.
\<close>

theorem Query_books_seeded:
  "fst (Query_books (run init qs) p a c i) =
     Inr (Arr [ Obj [(''title'', Str ''The Awakening''),
                     (''author'', Obj [(''name'', Str ''Kate Chopin'')])],
                Obj [(''title'', Str ''City of Glass''),
                     (''author'', Obj [(''name'', Str ''Paul Auster'')])] ])"
  by (simp add: run_frame Query_books_def init_def)

text \<open>
  Claim C7. \<^verbatim>\<open>Query.libraries\<close> returns the two seeded library entries in seed order,
  \<^verbatim>\<open>[{branch: "downtown"}, {branch: "riverside"}]\<close>, after any sequence of field
  resolutions.
\<close>

theorem Query_libraries_seeded:
  "fst (Query_libraries (run init qs) p a c i) =
     Inr (Arr [Obj [(''branch'', Str ''downtown'')], Obj [(''branch'', Str ''riverside'')]])"
  by (simp add: run_frame Query_libraries_def init_def)

text \<open>
  Claim C8. \<^verbatim>\<open>Query.numberSix\<close> returns 6 and \<^verbatim>\<open>Query.numberSeven\<close> returns 7 on every
  invocation, in any state and after any sequence of field resolutions, mutations
  included.
\<close>

theorem numberSix_numberSeven:
  "fst (Query_numberSix (run s qs) p a c i) = Inr (Num 6)
   \<and> fst (Query_numberSeven (run s qs) p a c i) = Inr (Num 7)"
  by (simp add: Query_numberSix_def Query_numberSeven_def)


section \<open>The table as a whole\<close>

text \<open>
  Claim C9. Every resolver of the table (the six \<^verbatim>\<open>Query\<close> fields,
  \<^verbatim>\<open>Library.booksNew\<close>, \<^verbatim>\<open>BookNew.author\<close> and \<^verbatim>\<open>Mutation.addBook\<close>, which are all its
  entries) leaves the four collections \<^verbatim>\<open>books\<close>, \<^verbatim>\<open>authors\<close>, \<^verbatim>\<open>libraries\<close> and
  \<^verbatim>\<open>booksNew\<close> as they were, whatever it is called with and whether it returns or throws.
\<close>

theorem resolvers_leave_state:
  "(\<forall>(t, fs)\<in>set resolvers. \<forall>(f, r)\<in>set fs.
      books (snd (r s p a c i)) = books s \<and> authors (snd (r s p a c i)) = authors s
      \<and> libraries (snd (r s p a c i)) = libraries s \<and> booksNew (snd (r s p a c i)) = booksNew s)
   \<and> map (\<lambda>(t, fs). (t, map fst fs)) resolvers =
       [ (''Query'', [''books'', ''authors'', ''author'', ''numberSix'', ''numberSeven'',
                      ''libraries'']),
         (''Library'', [''booksNew'']), (''BookNew'', [''author'']),
         (''Mutation'', [''addBook'']) ]"
proof -
  have "snd (r s p a c i) = s" if "(t, fs) \<in> set resolvers" and "(f, r) \<in> set fs" for t fs f r
    using that table_entries entry_frame by blast
  then have "\<forall>(t, fs)\<in>set resolvers. \<forall>(f, r)\<in>set fs.
      books (snd (r s p a c i)) = books s \<and> authors (snd (r s p a c i)) = authors s
      \<and> libraries (snd (r s p a c i)) = libraries s \<and> booksNew (snd (r s p a c i)) = booksNew s"
    by fastforce
  moreover have "map (\<lambda>(t, fs). (t, map fst fs)) resolvers =
       [ (''Query'', [''books'', ''authors'', ''author'', ''numberSix'', ''numberSeven'',
                      ''libraries'']),
         (''Library'', [''booksNew'']), (''BookNew'', [''author'']),
         (''Mutation'', [''addBook'']) ]"
    by (simp add: resolvers_def)
  ultimately show ?thesis by blast
qed

theorem resolvers_leave_state_witness:
  "books (snd (Mutation_addBook init Undefined
       (Obj [(''title'', Str ''New Title''), (''author'', Str ''New Author'')]) (Obj []) (Obj [])))
     = books init"
proof -
  have m: "(''Mutation'', [(''addBook'', Mutation_addBook)]) \<in> set resolvers"
    by (simp add: resolvers_def)
  have "\<forall>(t, fs)\<in>set resolvers. \<forall>(f, r)\<in>set fs.
      books (snd (r init Undefined
        (Obj [(''title'', Str ''New Title''), (''author'', Str ''New Author'')]) (Obj []) (Obj [])))
       = books init
      \<and> authors (snd (r init Undefined
        (Obj [(''title'', Str ''New Title''), (''author'', Str ''New Author'')]) (Obj []) (Obj [])))
       = authors init
      \<and> libraries (snd (r init Undefined
        (Obj [(''title'', Str ''New Title''), (''author'', Str ''New Author'')]) (Obj []) (Obj [])))
       = libraries init
      \<and> booksNew (snd (r init Undefined
        (Obj [(''title'', Str ''New Title''), (''author'', Str ''New Author'')]) (Obj []) (Obj [])))
       = booksNew init"
    by (rule resolvers_leave_state [THEN conjunct1])
  from bspec [OF this m] show ?thesis by simp
qed

end
